theory Spec2Isabelle
  imports Complex_Main "HOL-Library.Word"
begin

unbundle bit_operations_syntax

section \<open>Bytes\<close>

text \<open>
  Python \<open>bytes\<close> objects are lists of 8-bit words. An empty \<open>bytes\<close> object is falsy,
  as is \<open>None\<close>.
\<close>

type_synonym byte = "8 word"
type_synonym bytes = "byte list"
type_synonym u32 = "32 word"

section \<open>hashlib.sha256\<close>

text \<open>
  The tunnel derives its keystream and its handshake digests with \<open>hashlib.sha256\<close>.
  The library function is SHA-256 of FIPS 180-4, written out here on 32-bit words:
  padding, message schedule, 64 rounds per 64-byte block, big-endian output. The round
  constants and the initial state are written in decimal.
\<close>

definition K256 :: "u32 list" where
  "K256 =
    [1116352408, 1899447441, 3049323471, 3921009573, 961987163, 1508970993, 2453635748, 2870763221,
     3624381080, 310598401, 607225278, 1426881987, 1925078388, 2162078206, 2614888103, 3248222580,
     3835390401, 4022224774, 264347078, 604807628, 770255983, 1249150122, 1555081692, 1996064986,
     2554220882, 2821834349, 2952996808, 3210313671, 3336571891, 3584528711, 113926993, 338241895,
     666307205, 773529912, 1294757372, 1396182291, 1695183700, 1986661051, 2177026350, 2456956037,
     2730485921, 2820302411, 3259730800, 3345764771, 3516065817, 3600352804, 4094571909, 275423344,
     430227734, 506948616, 659060556, 883997877, 958139571, 1322822218, 1537002063, 1747873779,
     1955562222, 2024104815, 2227730452, 2361852424, 2428436474, 2756734187, 3204031479, 3329325298]"

definition rotr32 :: "nat \<Rightarrow> u32 \<Rightarrow> u32" where
  "rotr32 n x = drop_bit n x OR push_bit (32 - n) x"

definition be32 :: "bytes \<Rightarrow> u32" where
  "be32 bs = foldl (\<lambda>acc b. push_bit 8 acc OR ucast b) 0 bs"

fun be_words :: "bytes \<Rightarrow> u32 list" where
  "be_words (a # b # c # d # rest) = be32 [a, b, c, d] # be_words rest"
| "be_words _ = []"

definition bit_length_bytes :: "64 word \<Rightarrow> bytes" where
  "bit_length_bytes n = map (\<lambda>s. ucast (drop_bit s n)) [56, 48, 40, 32, 24, 16, 8, 0]"

definition sha_pad :: "bytes \<Rightarrow> bytes" where
  "sha_pad m =
     m @ [0x80] @ replicate ((119 - length m mod 64) mod 64) 0
       @ bit_length_bytes (8 * of_nat (length m))"

text \<open>The message schedule, most recent word first.\<close>

fun schedule :: "nat \<Rightarrow> u32 list \<Rightarrow> u32 list" where
  "schedule 0 ws = ws"
| "schedule (Suc n) ws =
     (let w2 = ws ! 1; w7 = ws ! 6; w15 = ws ! 14; w16 = ws ! 15;
          s0 = rotr32 7 w15 XOR rotr32 18 w15 XOR drop_bit 3 w15;
          s1 = rotr32 17 w2 XOR rotr32 19 w2 XOR drop_bit 10 w2
      in schedule n ((w16 + s0 + w7 + s1) # ws))"

type_synonym sha_state = "u32 \<times> u32 \<times> u32 \<times> u32 \<times> u32 \<times> u32 \<times> u32 \<times> u32"

fun sha_round :: "sha_state \<Rightarrow> u32 \<times> u32 \<Rightarrow> sha_state" where
  "sha_round (a, b, c, d, e, f, g, h) (k, w) =
     (let S1 = rotr32 6 e XOR rotr32 11 e XOR rotr32 25 e;
          ch = (e AND f) XOR (NOT e AND g);
          t1 = h + S1 + ch + k + w;
          S0 = rotr32 2 a XOR rotr32 13 a XOR rotr32 22 a;
          mj = (a AND b) XOR (a AND c) XOR (b AND c);
          t2 = S0 + mj
      in (t1 + t2, a, b, c, d + t1, e, f, g))"

fun sha_add :: "sha_state \<Rightarrow> sha_state \<Rightarrow> sha_state" where
  "sha_add (a, b, c, d, e, f, g, h) (a', b', c', d', e', f', g', h') =
     (a + a', b + b', c + c', d + d', e + e', f + f', g + g', h + h')"

definition compress :: "sha_state \<Rightarrow> bytes \<Rightarrow> sha_state" where
  "compress st block =
     sha_add st (foldl sha_round st (zip K256 (rev (schedule 48 (rev (be_words block))))))"

function sha_blocks :: "sha_state \<Rightarrow> bytes \<Rightarrow> sha_state" where
  "sha_blocks st m = (if m = [] then st else sha_blocks (compress st (take 64 m)) (drop 64 m))"
  by pat_completeness auto
termination
  by (relation "measure (\<lambda>(st, m). length m)") auto

declare sha_blocks.simps [simp del]

definition word_bytes :: "u32 \<Rightarrow> bytes" where
  "word_bytes w = [ucast (drop_bit 24 w), ucast (drop_bit 16 w), ucast (drop_bit 8 w), ucast w]"

fun state_bytes :: "sha_state \<Rightarrow> bytes" where
  "state_bytes (a, b, c, d, e, f, g, h) =
     word_bytes a @ word_bytes b @ word_bytes c @ word_bytes d @
     word_bytes e @ word_bytes f @ word_bytes g @ word_bytes h"

definition sha256_init :: sha_state where
  "sha256_init =
     (1779033703, 3144134277, 1013904242, 2773480762,
      1359893119, 2600822924, 528734635, 1541459225)"

definition sha256 :: "bytes \<Rightarrow> bytes" where
  "sha256 m = state_bytes (sha_blocks sha256_init (sha_pad m))"

lemma length_state_bytes: "length (state_bytes st) = 32"
  by (cases st rule: state_bytes.cases) (simp add: word_bytes_def)

lemma length_sha256 [simp]: "length (sha256 m) = 32"
  by (simp add: sha256_def length_state_bytes)

subsection \<open>Digests of two nine-byte inputs\<close>

text \<open>
  The digests that \<open>hashlib.sha256\<close> returns for \<open>01 00 00 00 00 00 00 00 00\<close> and for
  \<open>02 00 00 00 00 00 00 00 00\<close>, computed by the definitions above.
\<close>

lemma sha256_one:
  "sha256 [1, 0, 0, 0, 0, 0, 0, 0, 0] = [165, 54, 170, 60, 237, 230, 234, 60, 31, 62, 3, 87, 195, 198, 14, 15, 33, 106, 140, 137, 184, 83, 223, 19, 178, 157, 170, 143, 133, 6, 93, 251]"
  by code_simp

lemma sha256_two:
  "sha256 [2, 0, 0, 0, 0, 0, 0, 0, 0] = [67, 34, 253, 43, 192, 161, 55, 209, 55, 91, 55, 179, 178, 226, 180, 113, 91, 61, 61, 215, 202, 150, 130, 67, 141, 79, 234, 15, 132, 55, 250, 211]"
  by code_simp

section \<open>Log lines\<close>

text \<open>
  Every \<open>logger\<close> call of the tunnel is one entry of the log, with the values that the
  message formats: names, directions and byte counts.
\<close>

datatype init_failure =
    Keypair_raised
  | Failed_to_generate_keypair
  | Failed_to_generate_ciphertext
  | Failed_to_recover_shared_secret
  | Shared_secret_mismatch
  | Digest_raised

datatype log_entry =
    Generated_keypair string
  | Generated_shared_secret string
  | Recovered_shared_secret string
  | Key_establishment_error string
  | No_shared_secret string
  | Protected string string nat
  | Data_protection_error string
  | Received_message string nat
  | Tunnel_ready
  | PQC_initialization_failed init_failure
  | Blocked nat string
  | Direct_communication_attempt
  | Processing string string nat
  | Integrity_check_failed
  | Failed_to_send string
  | Transfer_error
  | Empty_data string
  | Connection_lost string

section \<open>PQCManager\<close>

text \<open>
  The fields of \<open>PQCManager\<close> that the tunnel reads. \<open>None\<close> is Python's \<open>None\<close>.
\<close>

record PQCManager =
  name :: string
  is_server :: bool
  public_key :: "bytes option"
  shared_secret :: "bytes option"

text \<open>Truthiness of a value that is \<open>None\<close> or a \<open>bytes\<close> object.\<close>

definition truthy :: "bytes option \<Rightarrow> bool" where
  "truthy x = (case x of None \<Rightarrow> False | Some b \<Rightarrow> b \<noteq> [])"

text \<open>\<open>struct.pack('>Q', 0)\<close>: the 64-bit counter, always zero.\<close>

definition counter_bytes :: bytes where
  "counter_bytes = replicate 8 0"

text \<open>
  The loop of \<open>protect_data\<close> that extends the key stream by one digest at a time until
  it covers the data:
  \<^verbatim>\<open>
  while len(key_stream) < len(data):
      key_material = hashlib.sha256(key_stream).digest() + counter_bytes
      key_stream += hashlib.sha256(key_material).digest()
  \<close>
\<close>

function key_stream_loop :: "bytes \<Rightarrow> nat \<Rightarrow> bytes" where
  "key_stream_loop key_stream n =
     (if length key_stream < n
      then key_stream_loop (key_stream @ sha256 (sha256 key_stream @ counter_bytes)) n
      else key_stream)"
  by pat_completeness auto
termination
  by (relation "measure (\<lambda>(key_stream, n). n - length key_stream)") auto

declare key_stream_loop.simps [simp del]

text \<open>
  \<open>PQCManager.protect_data\<close>: the result (\<open>None\<close> or the processed bytes) and the lines
  it logs. With \<open>data\<close> and the secret both \<open>bytes\<close>, nothing inside the \<open>try\<close> raises,
  so the \<open>except\<close> branch has no counterpart here.
\<close>

definition protect_data :: "PQCManager \<Rightarrow> bytes \<Rightarrow> string \<Rightarrow> bytes option \<times> log_entry list" where
  "protect_data m data direction =
     (case shared_secret m of
        None \<Rightarrow> (None, [No_shared_secret (name m)])
      | Some secret \<Rightarrow>
          if secret = [] then (None, [No_shared_secret (name m)])
          else
            let key_material = secret @ counter_bytes;
                key_stream = sha256 key_material;
                key_stream = key_stream_loop key_stream (length data);
                key_stream = take (length data) key_stream;
                result = map (\<lambda>(a, b). a XOR b) (zip data key_stream)
            in (Some result, [Protected (name m) direction (length data)]))"

subsection \<open>The key stream\<close>

lemma length_key_stream_loop: "n \<le> length (key_stream_loop ks n)"
proof (induction ks n rule: key_stream_loop.induct)
  case (1 key_stream n)
  show ?case
  proof (cases "length key_stream < n")
    case True
    with "1" show ?thesis
      by (subst key_stream_loop.simps) simp
  next
    case False
    then show ?thesis
      by (subst key_stream_loop.simps) simp
  qed
qed

lemma min_key_stream_loop [simp]: "min (length (key_stream_loop ks n)) n = n"
  using length_key_stream_loop [of n ks] by simp

lemma length_take_key_stream: "length (take n (key_stream_loop ks n)) = n"
  by simp

lemma xor_zip_cancel_key:
  "length xs = length ks \<Longrightarrow>
     map (\<lambda>(a, b). a XOR b) (zip (map (\<lambda>(a, b). a XOR b) (zip xs ks)) ks) = (xs :: bytes)"
proof (induction xs ks rule: list_induct2)
  case Nil
  then show ?case by simp
next
  case (Cons x xs k ks)
  have "(x XOR k) XOR k = x"
    by (simp add: xor.assoc)
  with Cons show ?case by simp
qed

lemma xor_zip_cancel_data:
  "length xs = length ks \<Longrightarrow>
     map (\<lambda>(a, b). a XOR b) (zip (map (\<lambda>(a, b). a XOR b) (zip xs ks)) xs) = (ks :: bytes)"
proof (induction xs ks rule: list_induct2)
  case Nil
  then show ?case by simp
next
  case (Cons x xs k ks)
  have "(x XOR k) XOR x = k"
    by (simp add: xor.commute xor.left_commute)
  with Cons show ?case by simp
qed

lemma protect_data_Some:
  assumes "shared_secret m = Some s" and "s \<noteq> []"
  shows "protect_data m d dir =
           (Some (map (\<lambda>(a, b). a XOR b)
                    (zip d (take (length d) (key_stream_loop (sha256 (s @ counter_bytes)) (length d))))),
            [Protected (name m) dir (length d)])"
  using assms by (simp add: protect_data_def)

lemma protect_data_None:
  assumes "\<not> truthy (shared_secret m)"
  shows "protect_data m d dir = (None, [No_shared_secret (name m)])"
  using assms by (auto simp: protect_data_def truthy_def split: option.splits)

lemma protect_data_length:
  assumes "fst (protect_data m d dir) = Some c"
  shows "length c = length d"
proof (cases "truthy (shared_secret m)")
  case True
  then obtain s where s: "shared_secret m = Some s" "s \<noteq> []"
    by (auto simp: truthy_def split: option.splits)
  from assms show ?thesis
    unfolding protect_data_Some [OF s] by (auto simp: length_take_key_stream)
next
  case False
  with assms show ?thesis by (simp add: protect_data_None)
qed

lemma counter_bytes_eq: "counter_bytes = [0, 0, 0, 0, 0, 0, 0, 0]"
  by (simp add: counter_bytes_def eval_nat_numeral)

section \<open>Platform, sockets and the simulated tunnel\<close>

text \<open>
  \<open>struct.pack('=I', x)\<close> and \<open>struct.unpack('=I', b)\<close> use the byte order of the host
  with standard size (4 bytes). The host's byte order and the two socket constants that
  the module imports from \<open>sctp\<close> (or sets to 132 and 3 when the import fails) are
  parameters of the model.
\<close>

datatype byteorder = Little | Big

record platform =
  host_byteorder :: byteorder
  IPPROTO_SCTP :: int
  SCTP_PPID :: int

definition pack_I :: "byteorder \<Rightarrow> u32 \<Rightarrow> bytes" where
  "pack_I bo x = (case bo of Big \<Rightarrow> word_bytes x | Little \<Rightarrow> rev (word_bytes x))"

text \<open>\<open>struct.unpack('=I', b)[0]\<close>; \<open>None\<close> is \<open>struct.error\<close>, raised unless \<open>len(b) == 4\<close>.\<close>

definition unpack_I :: "byteorder \<Rightarrow> bytes \<Rightarrow> u32 option" where
  "unpack_I bo b =
     (if length b \<noteq> 4 then None
      else Some (case bo of Big \<Rightarrow> be32 b | Little \<Rightarrow> be32 (rev b)))"

definition F1AP_PPID :: u32 where
  "F1AP_PPID = 62"

definition POLL_INTERVAL :: real where
  "POLL_INTERVAL = 1"

text \<open>\<open>FixedDelayModel(delay=150e-3)\<close> of both channels of \<open>ClassicalConnection\<close>.\<close>

definition channel_delay :: real where
  "channel_delay = 150 / 1000"

datatype endpoint = CU | DU

definition endpoint_name :: "endpoint \<Rightarrow> string" where
  "endpoint_name e = (case e of CU \<Rightarrow> ''CU'' | DU \<Rightarrow> ''DU'')"

definition opposite :: "endpoint \<Rightarrow> endpoint" where
  "opposite e = (case e of CU \<Rightarrow> DU | DU \<Rightarrow> CU)"

text \<open>
  What the environment decides about a socket: its file descriptor (\<open>-1\<close> once closed)
  and what a write through \<open>_send_with_ppid\<close> meets: \<open>sctp_send\<close> works, \<open>sctp_send\<close>
  raises \<open>AttributeError\<close> or \<open>TypeError\<close> and \<open>sendall\<close> works, or the write raises
  another exception.
\<close>

datatype send_behaviour = Sctp_send | Sendall | Send_raises

record sock =
  fileno :: int
  on_send :: send_behaviour

text \<open>One read of a readable socket in \<open>_process_socket_data\<close>.\<close>

datatype recv_result =
    Recvmsg bytes "(int \<times> int \<times> bytes) list"
  | Recv bytes
  | Would_block
  | Connection_error
  | Other_error

text \<open>
  What a peer observes: the bytes written to its socket, the payload identifier passed
  to \<open>sctp_send\<close> (none through \<open>sendall\<close>), and the simulation time of the write.
\<close>

record delivery =
  dest :: endpoint
  at_time :: real
  payload :: bytes
  ppid_sent :: "u32 option"

text \<open>
  The events of the simulation: the two event types of \<open>SCTPEventHandler\<close>, and the
  arrival of a channel's output at the input port of a node (\<open>SCTPNode.handle_message\<close>).
\<close>

datatype event = Init | Poll | Arrive endpoint bytes

text \<open>
  \<open>SCTPEventHandler\<close> with the objects it reaches: the two managers of the connection, the
  two global sockets, the simulator's clock and event queue, and what has been written
  and logged so far.
\<close>

record tunnel =
  tunnel_ready :: bool
  qcu_pqc :: PQCManager
  qdu_pqc :: PQCManager
  cu_client_socket :: "sock option"
  du_conn :: "sock option"
  sim_time :: real
  events :: "(real \<times> event) list"
  written :: "delivery list"
  logged :: "log_entry list"

definition log_line :: "log_entry \<Rightarrow> tunnel \<Rightarrow> tunnel" where
  "log_line l t = t\<lparr>logged := logged t @ [l]\<rparr>"

definition log_lines :: "log_entry list \<Rightarrow> tunnel \<Rightarrow> tunnel" where
  "log_lines ls t = t\<lparr>logged := logged t @ ls\<rparr>"

text \<open>The event queue is ordered by time; events of equal time fire in scheduling order.\<close>

fun insert_event :: "real \<times> event \<Rightarrow> (real \<times> event) list \<Rightarrow> (real \<times> event) list" where
  "insert_event e [] = [e]"
| "insert_event e (x # xs) = (if fst e < fst x then e # x # xs else x # insert_event e xs)"

definition schedule_after :: "real \<Rightarrow> event \<Rightarrow> tunnel \<Rightarrow> tunnel" where
  "schedule_after delay ev t = t\<lparr>events := insert_event (sim_time t + delay, ev) (events t)\<rparr>"

definition schedule_now :: "event \<Rightarrow> tunnel \<Rightarrow> tunnel" where
  "schedule_now ev t = schedule_after 0 ev t"

text \<open>
  \<open>node.ports["out_port"].tx_output(data)\<close>: the node's output port feeds the channel to
  the other node, whose input handler receives the data one channel delay later.
\<close>

definition tx_output :: "endpoint \<Rightarrow> bytes \<Rightarrow> tunnel \<Rightarrow> tunnel" where
  "tx_output node data t = schedule_after channel_delay (Arrive (opposite node) data) t"

text \<open>\<open>SCTPNode.handle_message\<close> only logs the size of what arrived.\<close>

definition handle_message :: "endpoint \<Rightarrow> bytes \<Rightarrow> tunnel \<Rightarrow> tunnel" where
  "handle_message node data t = log_line (Received_message (endpoint_name node) (length data)) t"

definition get_socket :: "endpoint \<Rightarrow> tunnel \<Rightarrow> sock option" where
  "get_socket e t = (case e of CU \<Rightarrow> cu_client_socket t | DU \<Rightarrow> du_conn t)"

text \<open>\<open>sock and sock.fileno() != -1\<close>\<close>

definition usable :: "sock option \<Rightarrow> bool" where
  "usable so = (case so of None \<Rightarrow> False | Some s \<Rightarrow> fileno s \<noteq> - 1)"

text \<open>\<open>_send_with_ppid\<close>; \<open>None\<close> when the write raises.\<close>

definition send_with_ppid :: "endpoint \<Rightarrow> sock \<Rightarrow> bytes \<Rightarrow> u32 \<Rightarrow> tunnel \<Rightarrow> tunnel option" where
  "send_with_ppid target s data ppid t =
     (case on_send s of
        Sctp_send \<Rightarrow>
          Some (t\<lparr>written := written t @
                  [\<lparr>dest = target, at_time = sim_time t, payload = data, ppid_sent = Some ppid\<rparr>]\<rparr>)
      | Sendall \<Rightarrow>
          Some (t\<lparr>written := written t @
                  [\<lparr>dest = target, at_time = sim_time t, payload = data, ppid_sent = None\<rparr>]\<rparr>)
      | Send_raises \<Rightarrow> None)"

text \<open>
  \<open>_process_data_through_pqc\<close>. Its two branches differ only in which manager encrypts,
  which decrypts, which node transmits and which socket is written; \<open>None\<close> is an
  exception that leaves the function (only \<open>struct.unpack\<close> could raise one).
\<close>

definition process_data_through_pqc ::
  "platform \<Rightarrow> bytes \<Rightarrow> bool \<Rightarrow> string \<Rightarrow> string \<Rightarrow> u32 \<Rightarrow> tunnel \<Rightarrow> tunnel option" where
  "process_data_through_pqc pf orig_data is_cu_socket source_name target_name ppid t =
     (if \<not> tunnel_ready t then Some (log_line Direct_communication_attempt t)
      else
        let enc_pqc = (if is_cu_socket then qcu_pqc t else qdu_pqc t);
            dec_pqc = (if is_cu_socket then qdu_pqc t else qcu_pqc t);
            node = (if is_cu_socket then CU else DU);
            target = (if is_cu_socket then DU else CU);
            t = log_line (Processing source_name target_name (length orig_data)) t;
            (encrypted, ls) = protect_data enc_pqc orig_data ''Encrypted'';
            t = log_lines ls t
        in if \<not> truthy encrypted then Some t
           else
             let data_with_ppid = pack_I (host_byteorder pf) ppid @ the encrypted;
                 t = tx_output node data_with_ppid t
             in case unpack_I (host_byteorder pf) (take 4 data_with_ppid) of
                  None \<Rightarrow> None
                | Some received_ppid \<Rightarrow>
                    let (decrypted, ls) = protect_data dec_pqc (the encrypted) ''Decrypted'';
                        t = log_lines ls t
                    in if \<not> truthy decrypted then Some t
                       else if decrypted \<noteq> Some orig_data
                       then Some (log_line Integrity_check_failed t)
                       else
                         (case get_socket target t of
                            None \<Rightarrow> Some t
                          | Some s \<Rightarrow>
                              if fileno s \<noteq> - 1
                              then (case send_with_ppid target s (the decrypted) received_ppid t of
                                      None \<Rightarrow> Some (log_line (Failed_to_send target_name) t)
                                    | Some t' \<Rightarrow> Some t')
                              else Some t))"

text \<open>\<open>_handle_empty_data\<close> and \<open>_handle_connection_error\<close>: close and forget the socket.\<close>

definition drop_socket :: "endpoint \<Rightarrow> tunnel \<Rightarrow> tunnel" where
  "drop_socket e t = (case e of CU \<Rightarrow> t\<lparr>cu_client_socket := None\<rparr> | DU \<Rightarrow> t\<lparr>du_conn := None\<rparr>)"

definition handle_empty_data :: "endpoint \<Rightarrow> tunnel \<Rightarrow> tunnel" where
  "handle_empty_data e t = drop_socket e (log_line (Empty_data (endpoint_name e)) t)"

definition handle_connection_error :: "endpoint \<Rightarrow> tunnel \<Rightarrow> tunnel" where
  "handle_connection_error e t = drop_socket e (log_line (Connection_lost (endpoint_name e)) t)"

text \<open>
  The loop over the ancillary data of \<open>recvmsg\<close>: the last entry of level
  \<open>IPPROTO_SCTP\<close> and type \<open>SCTP_PPID\<close> gives the payload identifier.
\<close>

fun extract_ppid :: "platform \<Rightarrow> (int \<times> int \<times> bytes) list \<Rightarrow> u32 \<Rightarrow> u32 option" where
  "extract_ppid pf [] ppid = Some ppid"
| "extract_ppid pf ((cmsg_level, cmsg_type, cmsg_data) # ancdata) ppid =
     (if cmsg_level = IPPROTO_SCTP pf \<and> cmsg_type = SCTP_PPID pf
      then (case unpack_I (host_byteorder pf) cmsg_data of
              None \<Rightarrow> None
            | Some v \<Rightarrow> extract_ppid pf ancdata v)
      else extract_ppid pf ancdata ppid)"

text \<open>\<open>_process_socket_data\<close> from the check for a closed connection on.\<close>

definition process_received :: "platform \<Rightarrow> endpoint \<Rightarrow> bytes \<Rightarrow> u32 \<Rightarrow> tunnel \<Rightarrow> tunnel" where
  "process_received pf src orig_data ppid t =
     (if orig_data = [] then handle_empty_data src t
      else
        let is_cu_socket = (src = CU);
            source_name = (if is_cu_socket then ''CU'' else ''DU'');
            target_name = (if is_cu_socket then ''DU'' else ''CU'')
        in if tunnel_ready t
           then (case process_data_through_pqc pf orig_data is_cu_socket source_name target_name ppid t of
                   None \<Rightarrow> log_line Transfer_error t
                 | Some t' \<Rightarrow> t')
           else log_line (Blocked (length orig_data) source_name) t)"

text \<open>\<open>_process_socket_data\<close> on the socket of endpoint \<open>src\<close>.\<close>

definition process_socket_data :: "platform \<Rightarrow> endpoint \<Rightarrow> recv_result \<Rightarrow> tunnel \<Rightarrow> tunnel" where
  "process_socket_data pf src r t =
     (case r of
        Recvmsg orig_data ancdata \<Rightarrow>
          (case extract_ppid pf ancdata F1AP_PPID of
             None \<Rightarrow> log_line Transfer_error t
           | Some ppid \<Rightarrow> process_received pf src orig_data ppid t)
      | Recv orig_data \<Rightarrow> process_received pf src orig_data F1AP_PPID t
      | Would_block \<Rightarrow> t
      | Connection_error \<Rightarrow> handle_connection_error src t
      | Other_error \<Rightarrow> log_line Transfer_error t)"

text \<open>
  \<open>poll_sctp_messages\<close>: \<open>readable\<close> is what \<open>select\<close> reports, with the outcome of the
  read of each socket; only the sockets that are usable when the poll starts are
  selected. The poll always reschedules itself.
\<close>

fun process_readable :: "platform \<Rightarrow> (endpoint \<times> recv_result) list \<Rightarrow> tunnel \<Rightarrow> tunnel" where
  "process_readable pf [] t = t"
| "process_readable pf ((src, r) # rest) t = process_readable pf rest (process_socket_data pf src r t)"

definition poll_sctp_messages :: "platform \<Rightarrow> (endpoint \<times> recv_result) list \<Rightarrow> tunnel \<Rightarrow> tunnel" where
  "poll_sctp_messages pf readable t =
     (let valid_sockets = (if usable (cu_client_socket t) then [CU] else [])
                        @ (if usable (du_conn t) then [DU] else [])
      in schedule_after POLL_INTERVAL Poll
           (process_readable pf (filter (\<lambda>(src, r). src \<in> set valid_sockets) readable) t))"

section \<open>The handshake\<close>

text \<open>
  The key encapsulation mechanism (\<open>oqs.KeyEncapsulation("Kyber512")\<close>) belongs to the
  environment: what its three operations return, \<open>None\<close> when the call raises.
  \<open>encap_secret\<close> returns the ciphertext and the shared secret.
\<close>

record kem =
  generate_keypair :: "bytes option"
  encap_secret :: "bytes \<Rightarrow> (bytes \<times> bytes) option"
  decap_secret :: "bytes \<Rightarrow> bytes option"

text \<open>
  \<open>PQCManager.setup_keypair\<close>: the returned key (\<open>None\<close> for a server), the manager and
  the log line; the outer \<open>None\<close> is the exception of \<open>generate_keypair\<close>, which the
  method does not catch.
\<close>

definition setup_keypair :: "kem \<Rightarrow> PQCManager \<Rightarrow> (bytes option \<times> PQCManager \<times> log_entry list) option" where
  "setup_keypair k m =
     (if \<not> is_server m
      then (case generate_keypair k of
              None \<Rightarrow> None
            | Some pk \<Rightarrow> Some (Some pk, m\<lparr>public_key := Some pk\<rparr>, [Generated_keypair (name m)]))
      else Some (None, m, []))"

text \<open>
  \<open>PQCManager.establish_shared_secret\<close> returns the ciphertext (server), \<open>True\<close>
  (client) or \<open>None\<close>.
\<close>

datatype established = Ciphertext bytes | Recovered | Nothing

definition established_truthy :: "established \<Rightarrow> bool" where
  "established_truthy r = (case r of Ciphertext c \<Rightarrow> c \<noteq> [] | Recovered \<Rightarrow> True | Nothing \<Rightarrow> False)"

definition establish_shared_secret ::
  "kem \<Rightarrow> PQCManager \<Rightarrow> bytes option \<Rightarrow> bytes option \<Rightarrow> established \<times> PQCManager \<times> log_entry list" where
  "establish_shared_secret k m client_public_key server_ciphertext =
     (if is_server m \<and> truthy client_public_key
      then (case encap_secret k (the client_public_key) of
              None \<Rightarrow> (Nothing, m, [Key_establishment_error (name m)])
            | Some (ciphertext, secret) \<Rightarrow>
                (Ciphertext ciphertext, m\<lparr>shared_secret := Some secret\<rparr>,
                 [Generated_shared_secret (name m)]))
      else if \<not> is_server m \<and> truthy server_ciphertext
      then (case decap_secret k (the server_ciphertext) of
              None \<Rightarrow> (Nothing, m, [Key_establishment_error (name m)])
            | Some secret \<Rightarrow>
                (Recovered, m\<lparr>shared_secret := Some secret\<rparr>, [Recovered_shared_secret (name m)]))
      else (Nothing, m, []))"

text \<open>\<open>digest.hexdigest()\<close>: two lower-case hexadecimal digits per byte.\<close>

definition hex_digit :: "nat \<Rightarrow> char" where
  "hex_digit n = ''0123456789abcdef'' ! n"

definition hexdigest :: "bytes \<Rightarrow> string" where
  "hexdigest b = concat (map (\<lambda>x. [hex_digit (unat x div 16), hex_digit (unat x mod 16)]) b)"

text \<open>
  \<open>SCTPEventHandler.initialize_pqc\<close>. Every \<open>raise\<close> inside the \<open>try\<close>, and every
  exception of a call, ends in the \<open>except\<close> branch, which logs the failure.
  \<open>hashlib.sha256(None)\<close> raises \<open>TypeError\<close>. The first call of
  \<open>establish_shared_secret\<close> passes no ciphertext, so it returns a ciphertext or \<open>None\<close>.
\<close>

definition initialize_pqc :: "kem \<Rightarrow> tunnel \<Rightarrow> tunnel" where
  "initialize_pqc k t =
     (case setup_keypair k (qdu_pqc t) of
        None \<Rightarrow> log_line (PQC_initialization_failed Keypair_raised) t
      | Some (qdu_public_key, qdu, ls) \<Rightarrow>
          let t = log_lines ls (t\<lparr>qdu_pqc := qdu\<rparr>)
          in if \<not> truthy qdu_public_key
             then log_line (PQC_initialization_failed Failed_to_generate_keypair) t
             else
               let t = tx_output DU (the qdu_public_key) t;
                   (ciphertext, qcu, ls) = establish_shared_secret k (qcu_pqc t) qdu_public_key None;
                   t = log_lines ls (t\<lparr>qcu_pqc := qcu\<rparr>)
               in (case ciphertext of
                     Ciphertext c \<Rightarrow>
                       if c = []
                       then log_line (PQC_initialization_failed Failed_to_generate_ciphertext) t
                       else
                         let t = tx_output CU c t;
                             (recovered, qdu, ls) = establish_shared_secret k (qdu_pqc t) None (Some c);
                             t = log_lines ls (t\<lparr>qdu_pqc := qdu\<rparr>)
                         in if established_truthy recovered
                            then (case (shared_secret (qcu_pqc t), shared_secret (qdu_pqc t)) of
                                    (Some qcu_secret, Some qdu_secret) \<Rightarrow>
                                      let qcu_hash = take 8 (hexdigest (sha256 qcu_secret));
                                          qdu_hash = take 8 (hexdigest (sha256 qdu_secret))
                                      in if qcu_hash = qdu_hash
                                         then log_line Tunnel_ready (t\<lparr>tunnel_ready := True\<rparr>)
                                         else log_line (PQC_initialization_failed Shared_secret_mismatch) t
                                  | _ \<Rightarrow> log_line (PQC_initialization_failed Digest_raised) t)
                            else log_line (PQC_initialization_failed Failed_to_recover_shared_secret) t
                   | _ \<Rightarrow> log_line (PQC_initialization_failed Failed_to_generate_ciphertext) t))"

section \<open>The session\<close>

text \<open>
  \<open>main\<close> builds the connection with its two managers (\<open>QDU\<close> the client, \<open>QCU\<close> the
  server) and the handler; \<open>SCTPEventHandler.__init__\<close> clears the readiness flag,
  schedules the first poll after \<open>POLL_INTERVAL\<close> and the initialisation now. The log
  lines of the constructors are left out.
\<close>

definition new_PQCManager :: "string \<Rightarrow> bool \<Rightarrow> PQCManager" where
  "new_PQCManager n server = \<lparr>name = n, is_server = server, public_key = None, shared_secret = None\<rparr>"

definition new_SCTPEventHandler :: "sock option \<Rightarrow> sock option \<Rightarrow> tunnel" where
  "new_SCTPEventHandler cu du =
     schedule_now Init
       (schedule_after POLL_INTERVAL Poll
          \<lparr>tunnel_ready = False,
           qcu_pqc = new_PQCManager ''QCU'' True,
           qdu_pqc = new_PQCManager ''QDU'' False,
           cu_client_socket = cu, du_conn = du,
           sim_time = 0, events = [], written = [], logged = []\<rparr>)"

text \<open>
  One turn of \<open>ns.sim_run()\<close>: the earliest event fires at its time and its handler runs.
  Each poll consumes the next entry of \<open>polls\<close>, what \<open>select\<close> and the reads return in
  that poll (nothing readable once the list is used up). \<open>sim_run\<close> runs \<open>n\<close> events;
  the simulation itself goes on for as long as polls reschedule themselves.
\<close>

definition sim_step ::
  "platform \<Rightarrow> kem \<Rightarrow> (endpoint \<times> recv_result) list list \<times> tunnel
     \<Rightarrow> (endpoint \<times> recv_result) list list \<times> tunnel" where
  "sim_step pf k st =
     (case st of (polls, t) \<Rightarrow>
        (case events t of
           [] \<Rightarrow> (polls, t)
         | (tm, ev) # rest \<Rightarrow>
             let t = t\<lparr>sim_time := tm, events := rest\<rparr>
             in (case ev of
                   Init \<Rightarrow> (polls, initialize_pqc k t)
                 | Poll \<Rightarrow>
                     (case polls of
                        [] \<Rightarrow> ([], poll_sctp_messages pf [] t)
                      | readable # later \<Rightarrow> (later, poll_sctp_messages pf readable t))
                 | Arrive node data \<Rightarrow> (polls, handle_message node data t))))"

definition sim_run ::
  "platform \<Rightarrow> kem \<Rightarrow> nat \<Rightarrow> (endpoint \<times> recv_result) list list \<Rightarrow> tunnel \<Rightarrow> tunnel" where
  "sim_run pf k n polls t = snd ((sim_step pf k ^^ n) (polls, t))"

section \<open>Byte order and digests\<close>

lemma be32_word_bytes: "be32 (word_bytes x) = x"
  unfolding be32_def word_bytes_def
  apply simp
  apply (rule bit_word_eqI)
  apply (auto simp: bit_simps)
  subgoal for n by (cases "n < 16") auto
  subgoal for n by (cases "n < 16"; cases "n < 24") auto
  done

lemma length_pack_I [simp]: "length (pack_I bo x) = 4"
  by (cases bo) (simp_all add: pack_I_def word_bytes_def)

lemma unpack_pack_I [simp]: "unpack_I bo (pack_I bo x) = Some x"
  by (cases bo) (simp_all add: unpack_I_def pack_I_def be32_word_bytes, simp_all add: word_bytes_def)

lemma pack_62: "pack_I Little F1AP_PPID = [62, 0, 0, 0]" "pack_I Big F1AP_PPID = [0, 0, 0, 62]"
  by (simp_all add: pack_I_def word_bytes_def F1AP_PPID_def)

lemma take_pack_I [simp]: "take 4 (pack_I bo x @ c) = pack_I bo x"
  by simp

lemma digest_prefix_one: "take 8 (hexdigest (sha256 [1, 0, 0, 0, 0, 0, 0, 0, 0])) = ''a536aa3c''"
  unfolding sha256_one by code_simp

lemma digest_prefix_two: "take 8 (hexdigest (sha256 [2, 0, 0, 0, 0, 0, 0, 0, 0])) = ''4322fd2b''"
  unfolding sha256_two by code_simp

section \<open>Round trip\<close>

lemma protect_data_round_trip:
  assumes "shared_secret m = Some s" and "shared_secret m' = Some s" and "s \<noteq> []"
  shows "\<exists>c. fst (protect_data m d dir) = Some c \<and> fst (protect_data m' c dir') = Some d"
proof -
  let ?ks = "\<lambda>n. take n (key_stream_loop (sha256 (s @ counter_bytes)) n)"
  let ?c = "map (\<lambda>(a, b). a XOR b) (zip d (?ks (length d)))"
  have len: "length ?c = length d"
    by (simp add: length_take_key_stream)
  have enc: "fst (protect_data m d dir) = Some ?c"
    by (simp add: protect_data_Some [OF assms(1,3)])
  have "fst (protect_data m' ?c dir') =
          Some (map (\<lambda>(a, b). a XOR b) (zip ?c (?ks (length ?c))))"
    by (simp only: protect_data_Some [OF assms(2,3)] fst_conv)
  also have "map (\<lambda>(a, b). a XOR b) (zip ?c (?ks (length ?c))) = d"
    unfolding len by (rule xor_zip_cancel_key) (simp add: length_take_key_stream)
  finally show ?thesis using enc by blast
qed

section \<open>The cipher\<close>

text \<open>
  C2. For every non-empty shared secret and every byte sequence \<open>d\<close>, \<open>protect_data\<close>
  returns a result on \<open>d\<close>, and applying \<open>protect_data\<close> with the same secret to that
  result returns \<open>d\<close> again, whatever the manager's name and the direction label are:
  one function encrypts and decrypts.
\<close>

theorem protect_data_involution:
  assumes "shared_secret m = Some s" and "shared_secret m' = Some s" and "s \<noteq> []"
  shows "\<exists>c. fst (protect_data m d dir) = Some c \<and> fst (protect_data m' c dir') = Some d"
  using assms by (rule protect_data_round_trip)

theorem protect_data_involution_witness:
  "\<exists>c. fst (protect_data \<lparr>name = ''QCU'', is_server = True, public_key = None,
                             shared_secret = Some [1, 2, 3]\<rparr> [10, 20, 30, 40] ''Encrypted'') = Some c
     \<and> fst (protect_data \<lparr>name = ''QDU'', is_server = False, public_key = None,
                             shared_secret = Some [1, 2, 3]\<rparr> c ''Decrypted'') = Some [10, 20, 30, 40]"
  using protect_data_involution
          [of "\<lparr>name = ''QCU'', is_server = True, public_key = None, shared_secret = Some [1, 2, 3]\<rparr>"
              "[1, 2, 3]"
              "\<lparr>name = ''QDU'', is_server = False, public_key = None, shared_secret = Some [1, 2, 3]\<rparr>"
              "[10, 20, 30, 40]" "''Encrypted''" "''Decrypted''"]
  by simp

text \<open>
  C4. Whenever the shared secret is unset (\<open>None\<close>) or empty, \<open>protect_data\<close> returns
  \<open>None\<close> for every input and direction, as a value: it logs one error line and produces
  no ciphertext.
\<close>

theorem protect_data_without_secret:
  assumes "shared_secret m = None \<or> shared_secret m = Some []"
  shows "protect_data m d dir = (None, [No_shared_secret (name m)])"
  using assms by (auto simp: protect_data_def)

theorem protect_data_without_secret_witness:
  "protect_data \<lparr>name = ''QCU'', is_server = True, public_key = None, shared_secret = None\<rparr>
       [1, 2, 3] ''Encrypted'' = (None, [No_shared_secret ''QCU''])
   \<and> protect_data \<lparr>name = ''QDU'', is_server = False, public_key = None, shared_secret = Some []\<rparr>
       [1, 2, 3] ''Encrypted'' = (None, [No_shared_secret ''QDU''])"
  using protect_data_without_secret
          [of "\<lparr>name = ''QCU'', is_server = True, public_key = None, shared_secret = None\<rparr>"
              "[1, 2, 3]" "''Encrypted''"]
        protect_data_without_secret
          [of "\<lparr>name = ''QDU'', is_server = False, public_key = None, shared_secret = Some []\<rparr>"
              "[1, 2, 3]" "''Encrypted''"]
  by simp

text \<open>
  C6. For every non-empty secret and any two inputs of equal length, the key stream that
  \<open>protect_data\<close> applies is the same in both calls: result XOR input agrees. Each call
  starts again from the zero counter, so the result depends only on the secret and the
  data, not on the manager holding the secret, on the direction label or on earlier calls.
\<close>

theorem protect_data_key_stream_reuse:
  assumes "shared_secret m = Some s" and "shared_secret m' = Some s" and "s \<noteq> []"
    and "length d1 = length d2"
  shows "\<exists>c1 c2. fst (protect_data m d1 dir) = Some c1 \<and> fst (protect_data m' d2 dir') = Some c2
           \<and> map (\<lambda>(a, b). a XOR b) (zip c1 d1) = map (\<lambda>(a, b). a XOR b) (zip c2 d2)
           \<and> fst (protect_data m' d1 dir') = Some c1"
proof -
  let ?ks = "take (length d1) (key_stream_loop (sha256 (s @ counter_bytes)) (length d1))"
  let ?c1 = "map (\<lambda>(a, b). a XOR b) (zip d1 ?ks)"
  let ?c2 = "map (\<lambda>(a, b). a XOR b) (zip d2 ?ks)"
  have l1: "length d1 = length ?ks" and l2: "length d2 = length ?ks"
    using assms(4) by (simp_all add: length_take_key_stream)
  have "fst (protect_data m d1 dir) = Some ?c1"
    by (simp add: protect_data_Some [OF assms(1,3)])
  moreover have "fst (protect_data m' d2 dir') = Some ?c2"
    by (simp add: protect_data_Some [OF assms(2,3)] assms(4) [symmetric])
  moreover have "map (\<lambda>(a, b). a XOR b) (zip ?c1 d1) = ?ks"
    by (rule xor_zip_cancel_data [OF l1])
  moreover have "map (\<lambda>(a, b). a XOR b) (zip ?c2 d2) = ?ks"
    by (rule xor_zip_cancel_data [OF l2])
  moreover have "fst (protect_data m' d1 dir') = Some ?c1"
    by (simp add: protect_data_Some [OF assms(2,3)])
  ultimately show ?thesis by simp
qed

theorem protect_data_key_stream_reuse_witness:
  "\<exists>c1 c2.
     fst (protect_data \<lparr>name = ''QCU'', is_server = True, public_key = None,
                          shared_secret = Some [1, 2, 3]\<rparr> [10, 20] ''Encrypted'') = Some c1
   \<and> fst (protect_data \<lparr>name = ''QDU'', is_server = False, public_key = None,
                          shared_secret = Some [1, 2, 3]\<rparr> [77, 88] ''Decrypted'') = Some c2
   \<and> map (\<lambda>(a, b). a XOR b) (zip c1 [10, 20]) = map (\<lambda>(a, b). a XOR b) (zip c2 [77, 88])
   \<and> fst (protect_data \<lparr>name = ''QDU'', is_server = False, public_key = None,
                          shared_secret = Some [1, 2, 3]\<rparr> [10, 20] ''Decrypted'') = Some c1"
  using protect_data_key_stream_reuse
          [of "\<lparr>name = ''QCU'', is_server = True, public_key = None, shared_secret = Some [1, 2, 3]\<rparr>"
              "[1, 2, 3]"
              "\<lparr>name = ''QDU'', is_server = False, public_key = None, shared_secret = Some [1, 2, 3]\<rparr>"
              "[10, 20]" "[77, 88]" "''Encrypted''" "''Decrypted''"]
  by simp

section \<open>Example values\<close>

text \<open>
  A host with the module's fallback socket constants, an open socket that supports
  \<open>sctp_send\<close>, and the handler as \<open>main\<close> creates it over two such sockets.
\<close>

definition fallback_platform :: "byteorder \<Rightarrow> platform" where
  "fallback_platform bo = \<lparr>host_byteorder = bo, IPPROTO_SCTP = 132, SCTP_PPID = 3\<rparr>"

definition open_sock :: sock where
  "open_sock = \<lparr>fileno = 5, on_send = Sctp_send\<rparr>"

definition fresh_tunnel :: tunnel where
  "fresh_tunnel = new_SCTPEventHandler (Some open_sock) (Some open_sock)"

lemma fresh_tunnel_fields:
  "tunnel_ready fresh_tunnel = False"
  "written fresh_tunnel = []"
  "logged fresh_tunnel = []"
  "events fresh_tunnel = [(0, Init), (1, Poll)]"
  "sim_time fresh_tunnel = 0"
  by (simp_all add: fresh_tunnel_def new_SCTPEventHandler_def schedule_now_def schedule_after_def
        POLL_INTERVAL_def)

text \<open>
  A tunnel whose handshake is over, at simulation time 5 with nothing scheduled, with the
  secrets that its two managers hold.
\<close>

definition paired_tunnel :: "bytes \<Rightarrow> bytes \<Rightarrow> tunnel" where
  "paired_tunnel qcu_secret qdu_secret =
     \<lparr>tunnel_ready = True,
      qcu_pqc = \<lparr>name = ''QCU'', is_server = True, public_key = None,
                 shared_secret = Some qcu_secret\<rparr>,
      qdu_pqc = \<lparr>name = ''QDU'', is_server = False, public_key = Some [7, 7],
                 shared_secret = Some qdu_secret\<rparr>,
      cu_client_socket = Some open_sock, du_conn = Some open_sock,
      sim_time = 5, events = [], written = [], logged = []\<rparr>"

section \<open>The security gate\<close>

text \<open>
  The lines that \<open>protect_data\<close> logs: every call of the cipher leaves exactly one.
\<close>

fun cipher_line :: "log_entry \<Rightarrow> bool" where
  "cipher_line (Protected n d k) = True"
| "cipher_line (No_shared_secret n) = True"
| "cipher_line (Data_protection_error n) = True"
| "cipher_line _ = False"

text \<open>
  \<open>untouched t t'\<close>: between \<open>t\<close> and \<open>t'\<close> nothing was written to a socket, nothing was
  scheduled, the session did not change, and the cipher was not called.
\<close>

definition untouched :: "tunnel \<Rightarrow> tunnel \<Rightarrow> bool" where
  "untouched t t' \<longleftrightarrow>
     written t' = written t \<and> events t' = events t \<and> tunnel_ready t' = tunnel_ready t
     \<and> qcu_pqc t' = qcu_pqc t \<and> qdu_pqc t' = qdu_pqc t \<and> sim_time t' = sim_time t
     \<and> take (length (logged t)) (logged t') = logged t
     \<and> (\<forall>l \<in> set (drop (length (logged t)) (logged t')). \<not> cipher_line l)"

lemma untouched_iff:
  "untouched t t' \<longleftrightarrow>
     written t' = written t \<and> events t' = events t \<and> tunnel_ready t' = tunnel_ready t
     \<and> qcu_pqc t' = qcu_pqc t \<and> qdu_pqc t' = qdu_pqc t \<and> sim_time t' = sim_time t
     \<and> (\<exists>ls. logged t' = logged t @ ls \<and> (\<forall>l \<in> set ls. \<not> cipher_line l))"
proof -
  have "take (length (logged t)) (logged t') = logged t
          \<and> (\<forall>l \<in> set (drop (length (logged t)) (logged t')). \<not> cipher_line l)
        \<longleftrightarrow> (\<exists>ls. logged t' = logged t @ ls \<and> (\<forall>l \<in> set ls. \<not> cipher_line l))"
  proof
    assume a: "take (length (logged t)) (logged t') = logged t
          \<and> (\<forall>l \<in> set (drop (length (logged t)) (logged t')). \<not> cipher_line l)"
    have "logged t' = take (length (logged t)) (logged t') @ drop (length (logged t)) (logged t')"
      by simp
    with a have "logged t' = logged t @ drop (length (logged t)) (logged t')"
      by simp
    with a show "\<exists>ls. logged t' = logged t @ ls \<and> (\<forall>l \<in> set ls. \<not> cipher_line l)"
      by blast
  next
    assume "\<exists>ls. logged t' = logged t @ ls \<and> (\<forall>l \<in> set ls. \<not> cipher_line l)"
    then show "take (length (logged t)) (logged t') = logged t
          \<and> (\<forall>l \<in> set (drop (length (logged t)) (logged t')). \<not> cipher_line l)"
      by auto
  qed
  then show ?thesis
    unfolding untouched_def by blast
qed

lemma untouched_refl: "untouched t t"
  by (simp add: untouched_iff)

lemma untouched_trans: "untouched a b \<Longrightarrow> untouched b c \<Longrightarrow> untouched a c"
  by (fastforce simp: untouched_iff)

lemma untouched_log_line: "\<not> cipher_line l \<Longrightarrow> untouched t (log_line l t)"
  by (simp add: untouched_iff log_line_def)

lemma untouched_drop_socket: "untouched t (drop_socket e t)"
  by (cases e) (simp_all add: untouched_iff drop_socket_def)

lemma blocked_process_received:
  assumes "\<not> tunnel_ready t"
  shows "untouched t (process_received pf src d ppid t)"
proof (cases "d = []")
  case True
  have "untouched t (log_line (Empty_data (endpoint_name src)) t)"
    by (rule untouched_log_line) simp
  then show ?thesis
    using True untouched_drop_socket untouched_trans
    by (fastforce simp: process_received_def handle_empty_data_def)
next
  case False
  with assms show ?thesis
    by (simp add: process_received_def Let_def untouched_log_line)
qed

lemma blocked_process_socket_data:
  assumes "\<not> tunnel_ready t"
  shows "untouched t (process_socket_data pf src r t)"
proof (cases r)
  case (Recvmsg d anc)
  then show ?thesis
    using assms
    by (auto simp: process_socket_data_def blocked_process_received untouched_log_line
             split: option.splits)
next
  case (Recv d)
  then show ?thesis
    using assms by (simp add: process_socket_data_def blocked_process_received)
next
  case Would_block
  then show ?thesis by (simp add: process_socket_data_def untouched_refl)
next
  case Connection_error
  have "untouched t (log_line (Connection_lost (endpoint_name src)) t)"
    by (rule untouched_log_line) simp
  then show ?thesis
    using Connection_error untouched_drop_socket untouched_trans
    by (fastforce simp: process_socket_data_def handle_connection_error_def)
next
  case Other_error
  then show ?thesis by (simp add: process_socket_data_def untouched_log_line)
qed

lemma blocked_process_readable:
  "\<not> tunnel_ready t \<Longrightarrow> untouched t (process_readable pf readable t)"
proof (induction readable arbitrary: t)
  case Nil
  then show ?case by (simp add: untouched_refl)
next
  case (Cons x readable)
  obtain src r where x: "x = (src, r)" by (cases x)
  have step: "untouched t (process_socket_data pf src r t)"
    by (rule blocked_process_socket_data [OF Cons.prems])
  then have "\<not> tunnel_ready (process_socket_data pf src r t)"
    using Cons.prems by (simp add: untouched_def)
  then have "untouched (process_socket_data pf src r t)
               (process_readable pf readable (process_socket_data pf src r t))"
    by (rule Cons.IH)
  with step show ?case
    unfolding x by (auto intro: untouched_trans)
qed

text \<open>
  C1. While \<open>tunnel_ready\<close> is false, a read of non-empty data from either endpoint
  (through \<open>recv\<close>, or through \<open>recvmsg\<close> with ancillary data that unpacks) changes
  the state by one log line only, which carries the size and the source of the data.
  Whatever and however much a poll reads, nothing is written to a socket, nothing is
  handed to the cipher, and nothing is scheduled besides the next poll.
\<close>

theorem gate_enforcement:
  assumes "\<not> tunnel_ready t"
  shows "(orig_data \<noteq> [] \<and>
            (r = Recv orig_data \<or>
             r = Recvmsg orig_data ancdata \<and> extract_ppid pf ancdata F1AP_PPID \<noteq> None) \<longrightarrow>
            process_socket_data pf src r t
              = log_line (Blocked (length orig_data) (endpoint_name src)) t)
       \<and> untouched t (process_readable pf readable t)
       \<and> written (poll_sctp_messages pf readable t) = written t
       \<and> events (poll_sctp_messages pf readable t)
           = insert_event (sim_time t + POLL_INTERVAL, Poll) (events t)
       \<and> \<not> tunnel_ready (poll_sctp_messages pf readable t)"
proof -
  have received: "process_received pf src orig_data ppid t
              = log_line (Blocked (length orig_data) (endpoint_name src)) t"
    if "orig_data \<noteq> []" for ppid
    using assms that by (cases src) (simp_all add: process_received_def endpoint_name_def)
  have one: "orig_data \<noteq> [] \<and>
            (r = Recv orig_data \<or>
             r = Recvmsg orig_data ancdata \<and> extract_ppid pf ancdata F1AP_PPID \<noteq> None) \<longrightarrow>
            process_socket_data pf src r t
              = log_line (Blocked (length orig_data) (endpoint_name src)) t"
    using received by (auto simp: process_socket_data_def)
  have many: "untouched t (process_readable pf rs t)" for rs
    by (rule blocked_process_readable [OF assms])
  have poll: "written (poll_sctp_messages pf readable t) = written t
       \<and> events (poll_sctp_messages pf readable t)
           = insert_event (sim_time t + POLL_INTERVAL, Poll) (events t)
       \<and> \<not> tunnel_ready (poll_sctp_messages pf readable t)"
    using many assms by (simp add: poll_sctp_messages_def schedule_after_def untouched_def Let_def)
  from one many poll show ?thesis by blast
qed

theorem gate_enforcement_witness:
  "process_socket_data (fallback_platform Little) DU (Recv [1, 2, 3]) fresh_tunnel
     = log_line (Blocked 3 ''DU'') fresh_tunnel
   \<and> written (poll_sctp_messages (fallback_platform Little)
                [(CU, Recv [1, 2, 3]), (DU, Recvmsg [4, 5] [])] fresh_tunnel) = []
   \<and> events (poll_sctp_messages (fallback_platform Little)
                [(CU, Recv [1, 2, 3]), (DU, Recvmsg [4, 5] [])] fresh_tunnel)
        = [(0, Init), (1, Poll), (1, Poll)]"
  using gate_enforcement
          [of fresh_tunnel "[1, 2, 3]" "Recv [1, 2, 3]" "[]" "fallback_platform Little" DU
              "[(CU, Recv [1, 2, 3]), (DU, Recvmsg [4, 5] [])]"]
  by (simp add: fresh_tunnel_fields endpoint_name_def POLL_INTERVAL_def eval_nat_numeral)

section \<open>Handlers that keep the session\<close>

text \<open>
  \<open>keeps_session t t'\<close>: the readiness flag and both managers are the same in \<open>t'\<close> as in
  \<open>t\<close>, and no initialisation event was scheduled in between.
\<close>

definition keeps_session :: "tunnel \<Rightarrow> tunnel \<Rightarrow> bool" where
  "keeps_session t t' \<longleftrightarrow>
     tunnel_ready t' = tunnel_ready t \<and> qcu_pqc t' = qcu_pqc t \<and> qdu_pqc t' = qdu_pqc t
     \<and> (\<forall>e \<in> set (events t'). snd e = Init \<longrightarrow> e \<in> set (events t))"

lemma set_insert_event [simp]: "set (insert_event e es) = insert e (set es)"
  by (induction es) auto

lemma keeps_session_refl [simp]: "keeps_session t t"
  by (simp add: keeps_session_def)

lemma keeps_session_trans: "keeps_session a b \<Longrightarrow> keeps_session b c \<Longrightarrow> keeps_session a c"
  by (auto simp: keeps_session_def)

lemma keeps_session_log_line [simp]: "keeps_session t (log_line l t') = keeps_session t t'"
  by (simp add: keeps_session_def log_line_def)

lemma keeps_session_log_lines [simp]: "keeps_session t (log_lines ls t') = keeps_session t t'"
  by (simp add: keeps_session_def log_lines_def)

lemma keeps_session_drop_socket [simp]: "keeps_session t (drop_socket e t') = keeps_session t t'"
  by (cases e) (simp_all add: keeps_session_def drop_socket_def)

lemma keeps_session_schedule_after [simp]:
  "ev \<noteq> Init \<Longrightarrow> keeps_session t (schedule_after d ev t') = keeps_session t t'"
  by (auto simp: keeps_session_def schedule_after_def)

lemma keeps_session_tx_output [simp]: "keeps_session t (tx_output node d t') = keeps_session t t'"
  by (simp add: tx_output_def)

lemma keeps_session_send_with_ppid:
  "send_with_ppid target s d ppid t' = Some t'' \<Longrightarrow> keeps_session t t'' = keeps_session t t'"
  by (auto simp: send_with_ppid_def keeps_session_def split: send_behaviour.splits)

lemma keeps_session_process_data_through_pqc:
  assumes "process_data_through_pqc pf d is_cu sn tn ppid t = Some t'"
  shows "keeps_session t t'"
  using assms unfolding process_data_through_pqc_def Let_def
  by (auto simp: keeps_session_send_with_ppid split: if_splits option.splits prod.splits)

lemma keeps_session_process_received: "keeps_session t (process_received pf src d ppid t)"
proof -
  have "keeps_session t (handle_empty_data src t)"
    by (simp add: handle_empty_data_def)
  then show ?thesis
    by (auto simp: process_received_def Let_def keeps_session_process_data_through_pqc
             split: option.splits)
qed

lemma keeps_session_process_socket_data: "keeps_session t (process_socket_data pf src r t)"
proof -
  have "keeps_session t (handle_connection_error src t)"
    by (simp add: handle_connection_error_def)
  then show ?thesis
    by (auto simp: process_socket_data_def keeps_session_process_received
             split: recv_result.splits option.splits)
qed

lemma keeps_session_process_readable: "keeps_session t (process_readable pf readable t)"
proof (induction readable arbitrary: t)
  case Nil
  then show ?case by simp
next
  case (Cons x readable)
  obtain src r where x: "x = (src, r)" by (cases x)
  show ?case
    unfolding x process_readable.simps
    by (rule keeps_session_trans [OF keeps_session_process_socket_data Cons.IH])
qed

lemma keeps_session_poll: "keeps_session t (poll_sctp_messages pf readable t)"
  by (simp add: poll_sctp_messages_def Let_def keeps_session_process_readable)

lemma keeps_session_handle_message: "keeps_session t (handle_message node d t)"
  by (simp add: handle_message_def)


section \<open>Readiness\<close>

text \<open>
  The comparison of \<open>initialize_pqc\<close> on the secrets the two managers hold: the first
  eight hexadecimal digits of the SHA-256 digests agree.
\<close>

definition secrets_verified :: "tunnel \<Rightarrow> bool" where
  "secrets_verified t =
     (case (shared_secret (qcu_pqc t), shared_secret (qdu_pqc t)) of
        (Some qcu_secret, Some qdu_secret) \<Rightarrow>
          take 8 (hexdigest (sha256 qcu_secret)) = take 8 (hexdigest (sha256 qdu_secret))
      | _ \<Rightarrow> False)"

text \<open>
  The handshake as the specification describes it, on the environment's key
  encapsulation: the client's key pair is generated, the server encapsulates to it, the
  client decapsulates the ciphertext, no step raises or returns an empty value, and the
  digests of the two secrets compare equal.
\<close>

definition handshake_ok :: "kem \<Rightarrow> bool" where
  "handshake_ok k =
     (case generate_keypair k of
        None \<Rightarrow> False
      | Some pk \<Rightarrow>
          pk \<noteq> [] \<and>
          (case encap_secret k pk of
             None \<Rightarrow> False
           | Some (c, qcu_secret) \<Rightarrow>
               c \<noteq> [] \<and>
               (case decap_secret k c of
                  None \<Rightarrow> False
                | Some qdu_secret \<Rightarrow>
                    take 8 (hexdigest (sha256 qcu_secret)) = take 8 (hexdigest (sha256 qdu_secret)))))"

text \<open>The state of a session once its initialisation event has fired.\<close>

definition settled :: "kem \<Rightarrow> tunnel \<Rightarrow> bool" where
  "settled k t \<longleftrightarrow>
     (\<forall>e \<in> set (events t). snd e \<noteq> Init)
     \<and> tunnel_ready t = handshake_ok k
     \<and> (tunnel_ready t \<longrightarrow> secrets_verified t)"

lemma initialize_pqc_fresh:
  assumes "is_server (qcu_pqc t)" and "\<not> is_server (qdu_pqc t)" and "\<not> tunnel_ready t"
    and "\<forall>e \<in> set (events t). snd e \<noteq> Init"
  shows "settled k (initialize_pqc k t)"
  using assms
  unfolding settled_def initialize_pqc_def setup_keypair_def establish_shared_secret_def
    handshake_ok_def secrets_verified_def Let_def
  by (auto simp: truthy_def established_truthy_def log_line_def log_lines_def tx_output_def
        schedule_after_def split: option.splits prod.splits)

lemma settled_keeps_session:
  assumes "settled k t" and "keeps_session t t'"
  shows "settled k t'"
  using assms by (auto simp: settled_def keeps_session_def secrets_verified_def)

lemma settled_step:
  assumes "settled k (snd p)"
  shows "settled k (snd (sim_step pf k p))"
proof (cases p)
  case (Pair polls t)
  with assms have st: "settled k t" by simp
  show ?thesis
  proof (cases "events t")
    case Nil
    with st Pair show ?thesis by (simp add: sim_step_def)
  next
    case (Cons x rest)
    obtain tm ev where x: "x = (tm, ev)" by (cases x)
    let ?t = "t\<lparr>sim_time := tm, events := rest\<rparr>"
    have popped: "settled k ?t"
      using st Cons by (auto simp: settled_def secrets_verified_def)
    have not_init: "ev \<noteq> Init"
      using st Cons x by (auto simp: settled_def)
    show ?thesis
    proof (cases ev)
      case Init
      with not_init show ?thesis by simp
    next
      case Poll
      have "settled k (poll_sctp_messages pf r ?t)" for r
        by (rule settled_keeps_session [OF popped keeps_session_poll])
      then show ?thesis
        using Pair Cons x Poll by (cases polls) (simp_all add: sim_step_def Let_def)
    next
      case (Arrive node d)
      have "settled k (handle_message node d ?t)"
        by (rule settled_keeps_session [OF popped keeps_session_handle_message])
      then show ?thesis
        using Pair Cons x Arrive by (simp add: sim_step_def Let_def)
    qed
  qed
qed

lemma events_new_SCTPEventHandler:
  "events (new_SCTPEventHandler cu du) = [(0, Init), (1, Poll)]"
  by (simp add: new_SCTPEventHandler_def schedule_now_def schedule_after_def POLL_INTERVAL_def)

lemma settled_first_step:
  "settled k (snd (sim_step pf k (polls, new_SCTPEventHandler cu du)))"
proof -
  let ?t = "(new_SCTPEventHandler cu du)\<lparr>sim_time := 0, events := [(1, Poll)]\<rparr>"
  have "settled k (initialize_pqc k ?t)"
    by (rule initialize_pqc_fresh)
       (simp_all add: new_SCTPEventHandler_def schedule_now_def schedule_after_def
          new_PQCManager_def)
  then show ?thesis
    by (simp add: sim_step_def events_new_SCTPEventHandler Let_def)
qed

lemma sim_run_Suc:
  "sim_run pf k (Suc n) polls t = snd (sim_step pf k ((sim_step pf k ^^ n) (polls, t)))"
  by (simp add: sim_run_def)

lemma settled_sim_run:
  "0 < n \<Longrightarrow> settled k (sim_run pf k n polls (new_SCTPEventHandler cu du))"
proof (induction n)
  case 0
  then show ?case by simp
next
  case (Suc n)
  show ?case
  proof (cases "n = 0")
    case True
    then show ?thesis
      using settled_first_step [of k pf polls cu du] by (simp add: sim_run_def)
  next
    case False
    with Suc.IH have "settled k (snd ((sim_step pf k ^^ n) (polls, new_SCTPEventHandler cu du)))"
      by (simp add: sim_run_def)
    then show ?thesis
      unfolding sim_run_Suc by (rule settled_step)
  qed
qed

text \<open>
  Key encapsulations for the examples: one on which both sides derive the same secret,
  one on which key generation raises, one on which the client recovers another secret.
\<close>

definition agreeing_kem :: kem where
  "agreeing_kem =
     \<lparr>generate_keypair = Some [7, 7],
      encap_secret = (\<lambda>pk. Some ([8, 8], [1, 0, 0, 0, 0, 0, 0, 0, 0])),
      decap_secret = (\<lambda>c. Some [1, 0, 0, 0, 0, 0, 0, 0, 0])\<rparr>"

definition raising_kem :: kem where
  "raising_kem = agreeing_kem\<lparr>generate_keypair := None\<rparr>"

definition disagreeing_kem :: kem where
  "disagreeing_kem = agreeing_kem\<lparr>decap_secret := (\<lambda>c. Some [2, 0, 0, 0, 0, 0, 0, 0, 0])\<rparr>"

lemma handshake_ok_disagreeing_kem: "\<not> handshake_ok disagreeing_kem"
  by (simp add: handshake_ok_def disagreeing_kem_def agreeing_kem_def
        digest_prefix_one digest_prefix_two)

lemma handshake_ok_agreeing_kem: "handshake_ok agreeing_kem"
  by (simp add: handshake_ok_def agreeing_kem_def)

lemma handshake_ok_raising_kem: "\<not> handshake_ok raising_kem"
  by (simp add: handshake_ok_def raising_kem_def)

text \<open>
  C3. In every session, the readiness flag is false when the handler is created. After
  any number of events it is true exactly when the initialisation has run and the
  handshake succeeded, and then the digests of the two managers' secrets compare equal and
  the flag stays true (so it rises at most once). When any step of the handshake raises,
  returns nothing, or the digests differ, the flag is false after every number of events;
  no initialisation event is ever scheduled again.
\<close>

theorem readiness_follows_handshake:
  fixes pf k polls cu du
  defines "run \<equiv> \<lambda>n. sim_run pf k n polls (new_SCTPEventHandler cu du)"
  shows "\<not> tunnel_ready (run 0)
       \<and> (tunnel_ready (run n) \<longleftrightarrow> 0 < n \<and> handshake_ok k)
       \<and> (tunnel_ready (run n) \<longrightarrow> secrets_verified (run n) \<and> tunnel_ready (run (n + j)))
       \<and> (\<not> handshake_ok k \<longrightarrow> \<not> tunnel_ready (run n))
       \<and> (0 < n \<longrightarrow> (\<forall>e \<in> set (events (run n)). snd e \<noteq> Init))"
proof -
  have zero: "\<not> tunnel_ready (run 0)"
    by (simp add: run_def sim_run_def new_SCTPEventHandler_def schedule_now_def schedule_after_def)
  have later: "settled k (run m)" if "0 < m" for m
    unfolding run_def using that by (rule settled_sim_run)
  have iff: "tunnel_ready (run m) \<longleftrightarrow> 0 < m \<and> handshake_ok k" for m
  proof (cases "m = 0")
    case True
    with zero show ?thesis by simp
  next
    case False
    then show ?thesis using later [of m] by (simp add: settled_def)
  qed
  have verified: "tunnel_ready (run n) \<longrightarrow> secrets_verified (run n)"
    using iff [of n] later [of n] by (auto simp: settled_def)
  have no_init: "0 < n \<longrightarrow> (\<forall>e \<in> set (events (run n)). snd e \<noteq> Init)"
    using later [of n] by (simp add: settled_def)
  from zero iff [of n] iff [of "n + j"] verified no_init show ?thesis by auto
qed

theorem readiness_follows_handshake_witness:
  "tunnel_ready (sim_run (fallback_platform Little) agreeing_kem 4 [] fresh_tunnel)
   \<and> secrets_verified (sim_run (fallback_platform Little) agreeing_kem 4 [] fresh_tunnel)
   \<and> \<not> tunnel_ready (sim_run (fallback_platform Little) raising_kem 4 [] fresh_tunnel)
   \<and> \<not> tunnel_ready (sim_run (fallback_platform Little) disagreeing_kem 4 [] fresh_tunnel)
   \<and> \<not> tunnel_ready (sim_run (fallback_platform Little) agreeing_kem 0 [] fresh_tunnel)"
  using readiness_follows_handshake
          [of "fallback_platform Little" agreeing_kem "[]" "Some open_sock" "Some open_sock" 4 0]
        readiness_follows_handshake
          [of "fallback_platform Little" raising_kem "[]" "Some open_sock" "Some open_sock" 4 0]
        readiness_follows_handshake
          [of "fallback_platform Little" disagreeing_kem "[]" "Some open_sock" "Some open_sock" 4 0]
        handshake_ok_agreeing_kem handshake_ok_raising_kem handshake_ok_disagreeing_kem
  by (simp add: fresh_tunnel_def)

section \<open>The data path of a ready tunnel\<close>

lemma through_pqc_transmits:
  assumes "tunnel_ready t"
    and "protect_data (if is_cu then qcu_pqc t else qdu_pqc t) d ''Encrypted'' = (Some c, l1)"
    and "c \<noteq> []"
    and "protect_data (if is_cu then qdu_pqc t else qcu_pqc t) c ''Decrypted'' = (dec, l2)"
  shows "process_data_through_pqc pf d is_cu sn tn ppid t =
     (let t3 = log_lines l2
                 (tx_output (if is_cu then CU else DU) (pack_I (host_byteorder pf) ppid @ c)
                   (log_lines l1 (log_line (Processing sn tn (length d)) t)))
      in if \<not> truthy dec then Some t3
         else if dec \<noteq> Some d then Some (log_line Integrity_check_failed t3)
         else (case get_socket (if is_cu then DU else CU) t3 of
                 None \<Rightarrow> Some t3
               | Some s \<Rightarrow>
                   if fileno s \<noteq> - 1
                   then (case send_with_ppid (if is_cu then DU else CU) s d ppid t3 of
                           None \<Rightarrow> Some (log_line (Failed_to_send tn) t3)
                         | Some t' \<Rightarrow> Some t')
                   else Some t3))"
proof (cases is_cu)
  case True
  with assms show ?thesis
    by (simp add: process_data_through_pqc_def Let_def truthy_def
          log_line_def log_lines_def tx_output_def schedule_after_def get_socket_def
          split: option.splits)
next
  case False
  with assms show ?thesis
    by (simp add: process_data_through_pqc_def Let_def truthy_def
          log_line_def log_lines_def tx_output_def schedule_after_def get_socket_def
          split: option.splits)
qed

lemma through_pqc_not_encrypted:
  assumes "tunnel_ready t"
    and "protect_data (if is_cu then qcu_pqc t else qdu_pqc t) d ''Encrypted'' = (enc, l1)"
    and "\<not> truthy enc"
  shows "process_data_through_pqc pf d is_cu sn tn ppid t =
           Some (log_lines l1 (log_line (Processing sn tn (length d)) t))"
  using assms
  by (cases is_cu)
     (simp_all add: process_data_through_pqc_def Let_def log_line_def log_lines_def)

lemma send_with_ppid_Some:
  assumes "send_with_ppid target s d ppid t = Some t'"
  shows "logged t' = logged t" and "events t' = events t"
    and "\<exists>p. written t' = written t @ [\<lparr>dest = target, at_time = sim_time t, payload = d, ppid_sent = p\<rparr>]"
  using assms by (auto simp: send_with_ppid_def split: send_behaviour.splits)

lemma mismatched_encrypt:
  "protect_data (qcu_pqc (paired_tunnel [1] [2])) [0] ''Encrypted''
     = (Some [165], [Protected ''QCU'' ''Encrypted'' 1])"
  by (simp add: paired_tunnel_def protect_data_def counter_bytes_eq sha256_one key_stream_loop.simps)

lemma mismatched_decrypt:
  "protect_data (qdu_pqc (paired_tunnel [1] [2])) [165] ''Decrypted''
     = (Some [230], [Protected ''QDU'' ''Decrypted'' 1])"
  by (simp add: paired_tunnel_def protect_data_def counter_bytes_eq sha256_two key_stream_loop.simps)

text \<open>
  C7. When the tunnel is ready, the packet was encrypted and decrypted to non-empty
  bytes, and the decrypted bytes differ from the bytes read, then
  \<open>_process_data_through_pqc\<close> logs the failed integrity check after the lines of the
  two cipher calls and returns: nothing is written to a socket, and the readiness flag
  and the managers are as before, so later packets are processed as before.
\<close>

theorem integrity_mismatch_drops_packet:
  assumes "tunnel_ready t"
    and "protect_data (if is_cu then qcu_pqc t else qdu_pqc t) d ''Encrypted'' = (Some c, l1)"
    and "c \<noteq> []"
    and "protect_data (if is_cu then qdu_pqc t else qcu_pqc t) c ''Decrypted'' = (Some d', l2)"
    and "d' \<noteq> []"
    and "d' \<noteq> d"
  shows "\<exists>t'. process_data_through_pqc pf d is_cu sn tn ppid t = Some t'
           \<and> logged t' = logged t @ [Processing sn tn (length d)] @ l1 @ l2 @ [Integrity_check_failed]
           \<and> written t' = written t
           \<and> tunnel_ready t'
           \<and> keeps_session t t'"
proof -
  let ?t3 = "log_lines l2
               (tx_output (if is_cu then CU else DU) (pack_I (host_byteorder pf) ppid @ c)
                 (log_lines l1 (log_line (Processing sn tn (length d)) t)))"
  have "process_data_through_pqc pf d is_cu sn tn ppid t = Some (log_line Integrity_check_failed ?t3)"
    using assms(5,6)
    by (simp add: through_pqc_transmits [OF assms(1-4)] truthy_def Let_def)
  moreover have "logged (log_line Integrity_check_failed ?t3)
                   = logged t @ [Processing sn tn (length d)] @ l1 @ l2 @ [Integrity_check_failed]"
    by (simp add: log_line_def log_lines_def tx_output_def schedule_after_def)
  moreover have "written (log_line Integrity_check_failed ?t3) = written t"
    by (simp add: log_line_def log_lines_def tx_output_def schedule_after_def)
  moreover have "tunnel_ready (log_line Integrity_check_failed ?t3)"
    using assms(1) by (simp add: log_line_def log_lines_def tx_output_def schedule_after_def)
  moreover have "keeps_session t (log_line Integrity_check_failed ?t3)"
    by simp
  ultimately show ?thesis by simp
qed

theorem integrity_mismatch_drops_packet_witness:
  "\<exists>t'. process_data_through_pqc (fallback_platform Little) [0] True ''CU'' ''DU'' F1AP_PPID
           (paired_tunnel [1] [2]) = Some t'
      \<and> logged t' = [Processing ''CU'' ''DU'' 1, Protected ''QCU'' ''Encrypted'' 1,
                      Protected ''QDU'' ''Decrypted'' 1, Integrity_check_failed]
      \<and> written t' = []
      \<and> tunnel_ready t'"
  using integrity_mismatch_drops_packet
          [of "paired_tunnel [1] [2]" True "[0]" "[165]" "[Protected ''QCU'' ''Encrypted'' 1]"
              "[230]" "[Protected ''QDU'' ''Decrypted'' 1]"
              "fallback_platform Little" "''CU''" "''DU''" F1AP_PPID]
        mismatched_encrypt mismatched_decrypt
  by (auto simp: paired_tunnel_def)

text \<open>
  C9. When the two managers hold equal shared secrets, processing any packet in either
  direction logs no failed integrity check, and whenever the sending manager returns a
  ciphertext for the packet, the receiving manager returns the packet for that ciphertext.
\<close>

theorem equal_secrets_pass_integrity_check:
  assumes "shared_secret (qcu_pqc t) = shared_secret (qdu_pqc t)"
  shows "(\<exists>t' ls. process_data_through_pqc pf d is_cu sn tn ppid t = Some t'
             \<and> logged t' = logged t @ ls \<and> Integrity_check_failed \<notin> set ls)
       \<and> (\<forall>c. fst (protect_data (if is_cu then qcu_pqc t else qdu_pqc t) d ''Encrypted'') = Some c
             \<longrightarrow> fst (protect_data (if is_cu then qdu_pqc t else qcu_pqc t) c ''Decrypted'') = Some d)"
proof -
  let ?enc = "if is_cu then qcu_pqc t else qdu_pqc t"
  let ?dec = "if is_cu then qdu_pqc t else qcu_pqc t"
  have same: "shared_secret ?enc = shared_secret ?dec"
    using assms by simp
  have round: "fst (protect_data ?dec c ''Decrypted'') = Some d"
    if "fst (protect_data ?enc d ''Encrypted'') = Some c" for c
  proof (cases "truthy (shared_secret ?enc)")
    case True
    then obtain s where s: "shared_secret ?enc = Some s" "s \<noteq> []"
      by (auto simp: truthy_def split: option.splits)
    with same have s': "shared_secret ?dec = Some s" by simp
    from protect_data_round_trip [OF s(1) s' s(2), of d "''Encrypted''" "''Decrypted''"] that
    show ?thesis by auto
  next
    case False
    with that show ?thesis by (simp add: protect_data_None)
  qed
  have run: "\<exists>t' ls. process_data_through_pqc pf d is_cu sn tn ppid t = Some t'
             \<and> logged t' = logged t @ ls \<and> Integrity_check_failed \<notin> set ls"
  proof (cases "tunnel_ready t")
    case False
    then show ?thesis
      by (simp add: process_data_through_pqc_def log_line_def)
  next
    case True
    obtain enc l1 where e: "protect_data ?enc d ''Encrypted'' = (enc, l1)"
      by (cases "protect_data ?enc d ''Encrypted''")
    have l1: "Integrity_check_failed \<notin> set l1"
      using e by (auto simp: protect_data_def Let_def split: option.splits if_splits)
    show ?thesis
    proof (cases "truthy enc")
      case False
      from through_pqc_not_encrypted [OF True e False] l1 show ?thesis
        by (simp add: log_line_def log_lines_def)
    next
      case truthy: True
      then obtain c where c: "enc = Some c" "c \<noteq> []"
        by (auto simp: truthy_def split: option.splits)
      obtain dec l2 where d: "protect_data ?dec c ''Decrypted'' = (dec, l2)"
        by (cases "protect_data ?dec c ''Decrypted''")
      have l2: "Integrity_check_failed \<notin> set l2"
        using d by (auto simp: protect_data_def Let_def split: option.splits if_splits)
      have dec: "dec = Some d"
        using round [of c] e c d by simp
      let ?t3 = "log_lines l2
                   (tx_output (if is_cu then CU else DU) (pack_I (host_byteorder pf) ppid @ c)
                     (log_lines l1 (log_line (Processing sn tn (length d)) t)))"
      have t3: "logged ?t3 = logged t @ [Processing sn tn (length d)] @ l1 @ l2"
        by (simp add: log_line_def log_lines_def tx_output_def schedule_after_def)
      have unfold: "process_data_through_pqc pf d is_cu sn tn ppid t =
          (if \<not> truthy dec then Some ?t3
           else case get_socket (if is_cu then DU else CU) ?t3 of
                  None \<Rightarrow> Some ?t3
                | Some s \<Rightarrow>
                    if fileno s \<noteq> - 1
                    then (case send_with_ppid (if is_cu then DU else CU) s d ppid ?t3 of
                            None \<Rightarrow> Some (log_line (Failed_to_send tn) ?t3)
                          | Some t' \<Rightarrow> Some t')
                    else Some ?t3)"
        using e c d dec by (simp add: through_pqc_transmits [OF True _ c(2) d] Let_def)
      show ?thesis
        unfolding unfold using t3 l1 l2
        by (auto simp: log_line_def dest: send_with_ppid_Some(1) split: option.splits)
    qed
  qed
  from run round show ?thesis by blast
qed



theorem equal_secrets_pass_integrity_check_witness:
  "(\<exists>t' ls. process_data_through_pqc (fallback_platform Little) [1, 2, 3] True ''CU'' ''DU''
                F1AP_PPID (paired_tunnel [9] [9]) = Some t'
             \<and> logged t' = ls \<and> Integrity_check_failed \<notin> set ls)
   \<and> fst (protect_data (qdu_pqc (paired_tunnel [9] [9]))
            (the (fst (protect_data (qcu_pqc (paired_tunnel [9] [9])) [1, 2, 3] ''Encrypted'')))
            ''Decrypted'') = Some [1, 2, 3]"
proof -
  have same: "shared_secret (qcu_pqc (paired_tunnel [9] [9]))
                = shared_secret (qdu_pqc (paired_tunnel [9] [9]))"
    by (simp add: paired_tunnel_def)
  have enc: "fst (protect_data (qcu_pqc (paired_tunnel [9] [9])) [1, 2, 3] ''Encrypted'')
               = Some (the (fst (protect_data (qcu_pqc (paired_tunnel [9] [9])) [1, 2, 3] ''Encrypted'')))"
    by (simp add: paired_tunnel_def protect_data_def)
  have start: "logged (paired_tunnel [9] [9]) = []"
    by (simp add: paired_tunnel_def)
  from equal_secrets_pass_integrity_check
         [OF same, of "fallback_platform Little" "[1, 2, 3]" True "''CU''" "''DU''" F1AP_PPID]
       enc start
  show ?thesis by simp
qed

text \<open>
  C10. A result of \<open>protect_data\<close> is as long as its input. With a secret, the empty input
  gives the empty result, which is falsy like \<open>None\<close>: \<open>_process_data_through_pqc\<close>
  returns on it before transmitting, so an empty packet is neither scheduled nor written;
  an empty read does not even reach the cipher and closes the socket.
\<close>

theorem empty_packet_not_forwarded:
  "(fst (protect_data m d dir) = Some c \<longrightarrow> length c = length d)
   \<and> (truthy (shared_secret m) \<longrightarrow> fst (protect_data m [] dir) = Some [])
   \<and> \<not> truthy (Some [])
   \<and> (\<exists>t'. process_data_through_pqc pf [] is_cu sn tn ppid t = Some t'
          \<and> written t' = written t \<and> events t' = events t)
   \<and> written (process_received pf src [] ppid t) = written t
   \<and> events (process_received pf src [] ppid t) = events t"
proof -
  have len: "fst (protect_data m d dir) = Some c \<longrightarrow> length c = length d"
    by (auto dest: protect_data_length)
  have empty: "truthy (shared_secret m) \<longrightarrow> fst (protect_data m [] dir) = Some []" for m dir
    by (auto simp: truthy_def protect_data_def split: option.splits)
  have falsy: "\<not> truthy (fst (protect_data m [] dir))" for m dir
    using empty [of m dir] by (cases "truthy (shared_secret m)") (auto simp: truthy_def protect_data_None)
  have through: "\<exists>t'. process_data_through_pqc pf [] is_cu sn tn ppid t = Some t'
          \<and> written t' = written t \<and> events t' = events t"
  proof (cases "tunnel_ready t")
    case False
    then show ?thesis by (simp add: process_data_through_pqc_def log_line_def)
  next
    case True
    obtain enc l1 where e: "protect_data (if is_cu then qcu_pqc t else qdu_pqc t) [] ''Encrypted'' = (enc, l1)"
      by (cases "protect_data (if is_cu then qcu_pqc t else qdu_pqc t) [] ''Encrypted''")
    then have "\<not> truthy enc"
      using falsy [of "if is_cu then qcu_pqc t else qdu_pqc t" "''Encrypted''"] by simp
    from through_pqc_not_encrypted [OF True e this] show ?thesis
      by (simp add: log_line_def log_lines_def)
  qed
  have received: "written (process_received pf src [] ppid t) = written t
     \<and> events (process_received pf src [] ppid t) = events t"
    by (cases src) (simp_all add: process_received_def handle_empty_data_def drop_socket_def log_line_def)
  from len empty [of m dir] through received show ?thesis
    by (simp add: truthy_def)
qed



theorem empty_packet_not_forwarded_witness:
  "length (the (fst (protect_data (qcu_pqc (paired_tunnel [9] [9])) [1, 2, 3] ''Encrypted''))) = 3
   \<and> fst (protect_data (qcu_pqc (paired_tunnel [9] [9])) [] ''Encrypted'') = Some []
   \<and> (\<exists>t'. process_data_through_pqc (fallback_platform Little) [] True ''CU'' ''DU'' F1AP_PPID
              (paired_tunnel [9] [9]) = Some t'
          \<and> written t' = [] \<and> events t' = [])"
  using empty_packet_not_forwarded
          [of "qcu_pqc (paired_tunnel [9] [9])" "[1, 2, 3]" "''Encrypted''"
              "the (fst (protect_data (qcu_pqc (paired_tunnel [9] [9])) [1, 2, 3] ''Encrypted''))"
              "fallback_platform Little" True "''CU''" "''DU''" F1AP_PPID "paired_tunnel [9] [9]" CU]
  by (simp add: paired_tunnel_def protect_data_def truthy_def)

section \<open>The wire unit\<close>

lemma cipher_nonempty:
  assumes "d \<noteq> []"
  shows "map (\<lambda>(a, b). a XOR b) (zip d (take (length d) (key_stream_loop ks (length d)))) \<noteq> []"
proof -
  have "length (map (\<lambda>(a, b). a XOR b) (zip d (take (length d) (key_stream_loop ks (length d)))))
          = length d"
    by simp
  with assms show ?thesis
    by (metis length_0_conv)
qed

lemma extract_ppid_default:
  "\<forall>a \<in> set anc. \<not> (fst a = IPPROTO_SCTP pf \<and> fst (snd a) = SCTP_PPID pf)
     \<Longrightarrow> extract_ppid pf anc p = Some p"
  by (induction anc) auto

lemma through_pqc_wire_unit:
  assumes "tunnel_ready t"
    and "protect_data (if is_cu then qcu_pqc t else qdu_pqc t) d ''Encrypted'' = (Some c, l1)"
    and "c \<noteq> []"
  shows "\<exists>t'. process_data_through_pqc pf d is_cu sn tn ppid t = Some t'
           \<and> events t' = insert_event (sim_time t + channel_delay,
                             Arrive (if is_cu then DU else CU) (pack_I (host_byteorder pf) ppid @ c))
                           (events t)"
proof -
  obtain dec l2 where d: "protect_data (if is_cu then qdu_pqc t else qcu_pqc t) c ''Decrypted'' = (dec, l2)"
    by (cases "protect_data (if is_cu then qdu_pqc t else qcu_pqc t) c ''Decrypted''")
  show ?thesis
    unfolding through_pqc_transmits [OF assms d] Let_def
    by (auto simp: log_line_def log_lines_def tx_output_def schedule_after_def opposite_def
          dest: send_with_ppid_Some(2) split: option.splits)
qed

lemma received_wire_unit:
  assumes "tunnel_ready t"
    and "protect_data (if src = CU then qcu_pqc t else qdu_pqc t) d ''Encrypted'' = (Some c, l1)"
    and "c \<noteq> []"
  shows "events (process_received pf src d ppid t)
           = insert_event (sim_time t + channel_delay,
               Arrive (opposite src) (pack_I (host_byteorder pf) ppid @ c)) (events t)"
proof -
  have "fst (protect_data (if src = CU then qcu_pqc t else qdu_pqc t) d ''Encrypted'') = Some c"
    using assms(2) by simp
  then have "length c = length d"
    by (rule protect_data_length)
  with assms(3) have d: "d \<noteq> []" by auto
  obtain t' where "process_data_through_pqc pf d (src = CU) (if src = CU then ''CU'' else ''DU'')
                      (if src = CU then ''DU'' else ''CU'') ppid t = Some t'"
    and "events t' = insert_event (sim_time t + channel_delay,
                       Arrive (if src = CU then DU else CU) (pack_I (host_byteorder pf) ppid @ c))
                     (events t)"
    using through_pqc_wire_unit [OF assms(1) _ assms(3), of "src = CU" d l1] assms(2) by blast
  then show ?thesis
    using d assms(1) by (cases src) (simp_all add: process_received_def Let_def opposite_def)
qed

text \<open>The payloads that are in the channels of the connection.\<close>

definition transmitted :: "tunnel \<Rightarrow> bytes list" where
  "transmitted t = concat (map (\<lambda>(tm, ev). case ev of Arrive node data \<Rightarrow> [data] | _ \<Rightarrow> []) (events t))"

text \<open>
  C8 as the code has it. For a packet of a ready tunnel that encrypts to a non-empty
  ciphertext, the unit handed to the channel is four bytes of payload tag followed by the
  ciphertext, the tag packed in the byte order of the host (\<open>struct\<close> format \<open>=I\<close>):
  most significant byte first on a big-endian host, least significant byte first on a
  little-endian one; unpacking on the same host gives the tag back. The tag is 62
  whenever the read supplies none: through \<open>recv\<close>, or through \<open>recvmsg\<close> without an
  ancillary entry of level \<open>IPPROTO_SCTP\<close> and type \<open>SCTP_PPID\<close>.
\<close>

theorem wire_format_native_order:
  assumes "tunnel_ready t"
    and "protect_data (if src = CU then qcu_pqc t else qdu_pqc t) d ''Encrypted'' = (Some c, l1)"
    and "c \<noteq> []"
    and "r = Recv d \<or>
         r = Recvmsg d anc \<and> (\<forall>a \<in> set anc. \<not> (fst a = IPPROTO_SCTP pf \<and> fst (snd a) = SCTP_PPID pf))"
  shows "events (process_socket_data pf src r t)
           = insert_event (sim_time t + channel_delay,
               Arrive (opposite src) (pack_I (host_byteorder pf) F1AP_PPID @ c)) (events t)
       \<and> events (process_received pf src d ppid t)
           = insert_event (sim_time t + channel_delay,
               Arrive (opposite src) (pack_I (host_byteorder pf) ppid @ c)) (events t)
       \<and> length (pack_I (host_byteorder pf) ppid) = 4
       \<and> unpack_I (host_byteorder pf) (pack_I (host_byteorder pf) ppid) = Some ppid
       \<and> pack_I Big ppid = word_bytes ppid
       \<and> pack_I Little ppid = rev (word_bytes ppid)
       \<and> F1AP_PPID = 62"
proof -
  have "process_socket_data pf src r t = process_received pf src d F1AP_PPID t"
    using assms(4) by (auto simp: process_socket_data_def extract_ppid_default)
  moreover have "pack_I Big ppid = word_bytes ppid" and "pack_I Little ppid = rev (word_bytes ppid)"
    by (simp_all add: pack_I_def)
  moreover have "F1AP_PPID = 62"
    by (simp add: F1AP_PPID_def)
  ultimately show ?thesis
    by (simp add: received_wire_unit [OF assms(1-3)])
qed


theorem wire_format_native_order_witness:
  "map (take 4) (transmitted (process_socket_data (fallback_platform Big) DU
                                (Recvmsg [1, 2, 3] [(0, 1, [5])]) (paired_tunnel [9] [9])))
     = [[0, 0, 0, 62]]"
proof -
  let ?c = "map (\<lambda>(a, b). a XOR b)
              (zip [1, 2, 3 :: byte]
                 (take (length [1, 2, 3 :: byte])
                    (key_stream_loop (sha256 ([9] @ counter_bytes)) (length [1, 2, 3 :: byte]))))"
  have c: "?c \<noteq> []"
    by (rule cipher_nonempty) simp
  have enc: "protect_data (if DU = CU then qcu_pqc (paired_tunnel [9] [9])
                           else qdu_pqc (paired_tunnel [9] [9])) [1, 2, 3] ''Encrypted''
               = (Some ?c, [Protected ''QDU'' ''Encrypted'' (length [1, 2, 3 :: byte])])"
    by (simp add: paired_tunnel_def protect_data_def)
  have ready: "tunnel_ready (paired_tunnel [9] [9])"
    by (simp add: paired_tunnel_def)
  have anc: "Recvmsg [1, 2, 3] [(0, 1, [5])] = Recv [1, 2, 3] \<or>
             Recvmsg [1, 2, 3] [(0, 1, [5])] = Recvmsg [1, 2, 3] [(0, 1, [5])] \<and>
             (\<forall>a \<in> set [(0, 1, [5 :: byte])].
                \<not> (fst a = IPPROTO_SCTP (fallback_platform Big)
                    \<and> fst (snd a) = SCTP_PPID (fallback_platform Big)))"
    by (simp add: fallback_platform_def)
  from wire_format_native_order [OF ready enc c anc, of F1AP_PPID] show ?thesis
    by (simp add: transmitted_def paired_tunnel_def fallback_platform_def pack_I_def
          word_bytes_def F1AP_PPID_def opposite_def)
qed

text \<open>
  C8 as the specification states it fails on a little-endian host: for a read without a
  tag, the first four bytes of the unit in the channel are \<open>3e 00 00 00\<close>, and the
  big-endian encoding of 62 is \<open>00 00 00 3e\<close>.
\<close>

theorem wire_tag_not_big_endian:
  "map (take 4) (transmitted (process_socket_data (fallback_platform Little) CU (Recv [1, 2, 3])
                                (paired_tunnel [9] [9])))
     = [[62, 0, 0, 0]]
   \<and> word_bytes F1AP_PPID = [0, 0, 0, 62]"
proof -
  let ?c = "map (\<lambda>(a, b). a XOR b)
              (zip [1, 2, 3 :: byte]
                 (take (length [1, 2, 3 :: byte])
                    (key_stream_loop (sha256 ([9] @ counter_bytes)) (length [1, 2, 3 :: byte]))))"
  have c: "?c \<noteq> []"
    by (rule cipher_nonempty) simp
  have "events (process_received (fallback_platform Little) CU [1, 2, 3] F1AP_PPID (paired_tunnel [9] [9]))
          = insert_event (sim_time (paired_tunnel [9] [9]) + channel_delay,
              Arrive (opposite CU) (pack_I (host_byteorder (fallback_platform Little)) F1AP_PPID @ ?c))
              (events (paired_tunnel [9] [9]))"
    by (rule received_wire_unit [OF _ _ c, where ?l1.0 = "[Protected ''QCU'' ''Encrypted'' (length [1, 2, 3 :: byte])]"])
       (simp_all add: paired_tunnel_def protect_data_def)
  then show ?thesis
    by (simp add: process_socket_data_def transmitted_def paired_tunnel_def fallback_platform_def
          pack_I_def word_bytes_def F1AP_PPID_def opposite_def)
qed


section \<open>Time of delivery\<close>

lemma through_pqc_delivers:
  assumes "tunnel_ready t"
    and "shared_secret (qcu_pqc t) = Some s" and "shared_secret (qdu_pqc t) = Some s" and "s \<noteq> []"
    and "d \<noteq> []"
    and "get_socket (if is_cu then DU else CU) t = Some sk"
    and "fileno sk \<noteq> - 1" and "on_send sk = Sctp_send"
  shows "\<exists>t' c. process_data_through_pqc pf d is_cu sn tn ppid t = Some t'
           \<and> written t' = written t @
                 [\<lparr>dest = (if is_cu then DU else CU), at_time = sim_time t, payload = d,
                   ppid_sent = Some ppid\<rparr>]
           \<and> events t' = insert_event (sim_time t + channel_delay,
                             Arrive (if is_cu then DU else CU) (pack_I (host_byteorder pf) ppid @ c))
                           (events t)"
proof -
  let ?enc = "if is_cu then qcu_pqc t else qdu_pqc t"
  let ?dec = "if is_cu then qdu_pqc t else qcu_pqc t"
  let ?c = "map (\<lambda>(a, b). a XOR b)
              (zip d (take (length d) (key_stream_loop (sha256 (s @ counter_bytes)) (length d))))"
  have se: "shared_secret ?enc = Some s" and sd: "shared_secret ?dec = Some s"
    using assms(2,3) by simp_all
  have e: "protect_data ?enc d ''Encrypted'' = (Some ?c, [Protected (name ?enc) ''Encrypted'' (length d)])"
    by (rule protect_data_Some [OF se assms(4)])
  have c: "?c \<noteq> []"
    by (rule cipher_nonempty [OF assms(5)])
  have "fst (protect_data ?dec ?c ''Decrypted'') = Some d"
    using protect_data_round_trip [OF se sd assms(4), of d "''Encrypted''" "''Decrypted''"] e
    by simp
  then obtain l2 where dd: "protect_data ?dec ?c ''Decrypted'' = (Some d, l2)"
    by (cases "protect_data ?dec ?c ''Decrypted''") simp
  let ?t3 = "log_lines l2
               (tx_output (if is_cu then CU else DU) (pack_I (host_byteorder pf) ppid @ ?c)
                 (log_lines [Protected (name ?enc) ''Encrypted'' (length d)]
                   (log_line (Processing sn tn (length d)) t)))"
  let ?t4 = "?t3\<lparr>written := written ?t3 @
               [\<lparr>dest = (if is_cu then DU else CU), at_time = sim_time ?t3, payload = d,
                 ppid_sent = Some ppid\<rparr>]\<rparr>"
  have sock: "get_socket (if is_cu then DU else CU) ?t3 = Some sk"
    using assms(6)
    by (cases is_cu)
       (simp_all add: get_socket_def log_line_def log_lines_def tx_output_def schedule_after_def)
  have send: "send_with_ppid (if is_cu then DU else CU) sk d ppid ?t3 = Some ?t4"
    using assms(8) by (simp add: send_with_ppid_def)
  have truthy: "truthy (Some d)"
    using assms(5) by (simp add: truthy_def)
  have "process_data_through_pqc pf d is_cu sn tn ppid t = Some ?t4"
    unfolding through_pqc_transmits [OF assms(1) e c dd] Let_def
    using truthy assms(7) by (simp only: sock send option.case if_True if_False simp_thms)
  moreover have "written ?t4 = written t @
                 [\<lparr>dest = (if is_cu then DU else CU), at_time = sim_time t, payload = d,
                   ppid_sent = Some ppid\<rparr>]"
    by (simp add: log_line_def log_lines_def tx_output_def schedule_after_def)
  moreover have "events ?t4 = insert_event (sim_time t + channel_delay,
                             Arrive (if is_cu then DU else CU) (pack_I (host_byteorder pf) ppid @ ?c))
                           (events t)"
    by (cases is_cu)
       (simp_all add: log_line_def log_lines_def tx_output_def schedule_after_def opposite_def)
  ultimately show ?thesis by blast
qed

text \<open>
  C5 at a concrete input. A ready tunnel with equal secrets reads three bytes from the
  CU socket at simulation time 5. The bytes are written to the DU socket at time 5, in the
  handler of the poll that read them, while the unit that \<open>tx_output\<close> gave to the
  channel arrives at time \<open>5 + channel_delay\<close>, where only \<open>handle_message\<close> logs it.
\<close>

theorem write_precedes_channel_delay:
  "written (process_socket_data (fallback_platform Little) CU (Recv [1, 2, 3]) (paired_tunnel [9] [9]))
     = [\<lparr>dest = DU, at_time = 5, payload = [1, 2, 3], ppid_sent = Some 62\<rparr>]
   \<and> map fst (events (process_socket_data (fallback_platform Little) CU (Recv [1, 2, 3])
                        (paired_tunnel [9] [9])))
       = [5 + channel_delay]
   \<and> sim_time (paired_tunnel [9] [9]) = 5
   \<and> 0 < channel_delay"
proof -
  obtain t' c where
    "process_data_through_pqc (fallback_platform Little) [1, 2, 3] True ''CU'' ''DU'' F1AP_PPID
       (paired_tunnel [9] [9]) = Some t'"
    and "written t' = written (paired_tunnel [9] [9]) @
           [\<lparr>dest = DU, at_time = sim_time (paired_tunnel [9] [9]), payload = [1, 2, 3],
             ppid_sent = Some F1AP_PPID\<rparr>]"
    and "events t' = insert_event (sim_time (paired_tunnel [9] [9]) + channel_delay,
                       Arrive DU (pack_I (host_byteorder (fallback_platform Little)) F1AP_PPID @ c))
                     (events (paired_tunnel [9] [9]))"
    using through_pqc_delivers
            [of "paired_tunnel [9] [9]" "[9]" "[1, 2, 3]" True open_sock
                "fallback_platform Little" "''CU''" "''DU''" F1AP_PPID]
    by (auto simp: paired_tunnel_def get_socket_def open_sock_def)
  then show ?thesis
    by (simp add: process_socket_data_def process_received_def paired_tunnel_def F1AP_PPID_def
          channel_delay_def)
qed


end
